theory Spec2Isabelle
  imports Complex_Main
begin

section \<open>JavaScript values\<close>

text \<open>
  The module is dynamically typed: arguments of \<open>setSize\<close>, event payloads, thrown
  values and the argument objects handed to the host are plain JavaScript values.
  Objects are association lists from property names to values. Numbers are real
  numbers; the rounding of IEEE doubles is not modelled.
\<close>

datatype jsval =
    Undefined
  | Null
  | Bool bool
  | Num real
  | Str string
  | Obj "(string \<times> jsval) list"
  | Error string

text \<open>Truthiness, as \<open>!size\<close> and \<open>options?.skip\<close> test it.\<close>

fun truthy :: "jsval \<Rightarrow> bool" where
  "truthy Undefined = False"
| "truthy Null = False"
| "truthy (Bool b) = b"
| "truthy (Num n) = (n \<noteq> 0)"
| "truthy (Str s) = (s \<noteq> [])"
| "truthy (Obj kvs) = True"
| "truthy (Error m) = True"

text \<open>
  Property access \<open>v.k\<close>: a property that is not there reads as \<open>undefined\<close>. (On
  \<open>null\<close> and \<open>undefined\<close> the access would throw; the module reads a property only
  behind a test that the value is truthy.)
\<close>

fun get :: "jsval \<Rightarrow> string \<Rightarrow> jsval" where
  "get (Obj kvs) k = (case map_of kvs k of None \<Rightarrow> Undefined | Some v \<Rightarrow> v)"
| "get v k = Undefined"

text \<open>
  Object spread followed by one more property, \<open>{...options, label}\<close>: a key that is
  already there keeps its place and takes the new value, a new key goes last.
\<close>

fun spread_with :: "(string \<times> jsval) list \<Rightarrow> string \<Rightarrow> jsval \<Rightarrow> (string \<times> jsval) list" where
  "spread_with [] k v = [(k, v)]"
| "spread_with ((k', v') # kvs) k v =
     (if k' = k then (k, v) # kvs else (k', v') # spread_with kvs k v)"


section \<open>Geometry value types\<close>

text \<open>
  \<open>LogicalSize\<close>, \<open>PhysicalSize\<close>, \<open>LogicalPosition\<close> and \<open>PhysicalPosition\<close> are
  classes whose constructors store a \<open>type\<close> tag and two numbers.
\<close>

record Size =
  type :: string
  width :: real
  height :: real

record Position =
  ptype :: string
  x :: real
  y :: real

definition LogicalSize :: "real \<Rightarrow> real \<Rightarrow> Size" where
  "LogicalSize w h = \<lparr>type = ''Logical'', width = w, height = h\<rparr>"

definition PhysicalSize :: "real \<Rightarrow> real \<Rightarrow> Size" where
  "PhysicalSize w h = \<lparr>type = ''Physical'', width = w, height = h\<rparr>"

definition LogicalPosition :: "real \<Rightarrow> real \<Rightarrow> Position" where
  "LogicalPosition px py = \<lparr>ptype = ''Logical'', x = px, y = py\<rparr>"

definition PhysicalPosition :: "real \<Rightarrow> real \<Rightarrow> Position" where
  "PhysicalPosition px py = \<lparr>ptype = ''Physical'', x = px, y = py\<rparr>"

text \<open>\<open>PhysicalSize.toLogical\<close> and \<open>PhysicalPosition.toLogical\<close>.\<close>

definition PhysicalSize_toLogical :: "Size \<Rightarrow> real \<Rightarrow> Size" where
  "PhysicalSize_toLogical this scaleFactor =
     LogicalSize (width this / scaleFactor) (height this / scaleFactor)"

definition PhysicalPosition_toLogical :: "Position \<Rightarrow> real \<Rightarrow> Position" where
  "PhysicalPosition_toLogical this scaleFactor =
     LogicalPosition (x this / scaleFactor) (y this / scaleFactor)"

text \<open>A size object as the JavaScript value a caller passes to \<open>setSize\<close>.\<close>

definition size_value :: "Size \<Rightarrow> jsval" where
  "size_value s =
     Obj [(''type'', Str (type s)), (''width'', Num (width s)), (''height'', Num (height s))]"


section \<open>The world outside a call\<close>

text \<open>
  A handler is a JavaScript function object; what \<open>indexOf\<close> compares is its
  reference, a natural number here. A \<open>Window\<close> object has a label and its own listener
  table, created by \<open>Object.create(null)\<close>, so a key is in the table only when it
  was stored there.
\<close>

type_synonym handler = nat

record Window =
  label :: string
  listeners :: "string \<rightharpoonup> handler list"

text \<open>
  The event subsystem of \<open>@tauri-apps/api/event\<close> is imported, not part of this
  module: its calls are recorded.
\<close>

datatype remote_call =
    RemoteListen string handler string
  | RemoteOnce string handler string
  | RemoteEmit string jsval string
  | RemoteUnlistenCall nat

text \<open>
  The world holds the \<open>Window\<close> objects by reference, the commands handed to the
  host through \<open>window.__TAURI_INVOKE__\<close>, and the calls made to the imported event
  subsystem.
\<close>

record world =
  windows :: "nat \<Rightarrow> Window"
  next_ref :: nat
  invoked :: "(string \<times> jsval) list"
  remote :: "remote_call list"

text \<open>
  The promise an \<open>async\<close> method returns: already resolved, already rejected with
  the value thrown in its body, or the promise of the host (of the event subsystem)
  for the call with the given index, settled later by the other side.
\<close>

datatype promise =
    Resolved
  | Rejected jsval
  | HostReply nat
  | RemoteReply nat

definition TAURI_INVOKE :: "string \<Rightarrow> jsval \<Rightarrow> world \<Rightarrow> promise \<times> world" where
  "TAURI_INVOKE cmd args w =
     (HostReply (length (invoked w)), w\<lparr>invoked := invoked w @ [(cmd, args)]\<rparr>)"


section \<open>Commands\<close>

definition setSize :: "nat \<Rightarrow> jsval \<Rightarrow> world \<Rightarrow> promise \<times> world" where
  "setSize this size' w =
     (if \<not> truthy size' \<or>
         (get size' ''type'' \<noteq> Str ''Logical'' \<and> get size' ''type'' \<noteq> Str ''Physical'')
      then (Rejected (Error ''the `size` argument must be either a LogicalSize or a PhysicalSize instance''), w)
      else TAURI_INVOKE ''plugin:window|set_size''
             (Obj [(''label'', Str (label (windows w this))),
                   (''value'', Obj [(''type'', get size' ''type''),
                                    (''data'', Obj [(''width'', get size' ''width''),
                                                    (''height'', get size' ''height'')])])])
             w)"

definition close :: "nat \<Rightarrow> world \<Rightarrow> promise \<times> world" where
  "close this w =
     TAURI_INVOKE ''plugin:window|close'' (Obj [(''label'', Str (label (windows w this)))]) w"


section \<open>Array built-ins\<close>

text \<open>
  \<open>Array.prototype.indexOf\<close> gives the index of the first element equal to the value,
  or \<open>-1\<close>. \<open>Array.prototype.splice(start, deleteCount)\<close> counts a negative start from
  the end of the array and clamps both arguments; the array after the call is the
  result here (the removed elements are not used by the module).
\<close>

fun indexOf :: "'a list \<Rightarrow> 'a \<Rightarrow> int" where
  "indexOf [] v = - 1"
| "indexOf (a # as) v =
     (if a = v then 0 else (let k = indexOf as v in if k < 0 then - 1 else k + 1))"

definition splice_js :: "'a list \<Rightarrow> int \<Rightarrow> int \<Rightarrow> 'a list" where
  "splice_js xs start deleteCount =
     (let len = int (length xs);
          actualStart = (if start < 0 then max (len + start) 0 else min start len);
          actualDeleteCount = min (max deleteCount 0) (len - actualStart)
      in take (nat actualStart) xs @ drop (nat (actualStart + actualDeleteCount)) xs)"


section \<open>The event bridge\<close>

definition localTauriEvents :: "string list" where
  "localTauriEvents = [''tauri://created'', ''tauri://error'']"

text \<open>The envelope a local handler receives.\<close>

record Event =
  event :: string
  id' :: int
  windowLabel :: string
  payload :: jsval

text \<open>
  What a handler does when it is called is given by a behaviour: from the envelope and
  the world to the world it leaves, and the value it throws, if it throws. Handlers
  reach the listener arrays through the methods of \<open>Window\<close>, which change an array in
  place, so the entry of the table stands for the array it refers to.
\<close>

type_synonym behaviour = "handler \<Rightarrow> Event \<Rightarrow> world \<Rightarrow> jsval option \<times> world"

text \<open>A call of a handler: the handler, the envelope it got, and the value it threw, if any.\<close>

type_synonym call = "handler \<times> Event \<times> jsval option"

text \<open>The assignment \<open>this.listeners[event] = l\<close>.\<close>

definition set_listeners :: "nat \<Rightarrow> string \<Rightarrow> handler list \<Rightarrow> world \<Rightarrow> world" where
  "set_listeners this ev l w =
     w\<lparr>windows := (windows w)
          (this := (windows w this)\<lparr>listeners := (listeners (windows w this))(ev \<mapsto> l)\<rparr>)\<rparr>"

text \<open>\<open>Window._handleTauriEvent\<close>.\<close>

definition handleTauriEvent :: "nat \<Rightarrow> string \<Rightarrow> handler \<Rightarrow> world \<Rightarrow> bool \<times> world" where
  "handleTauriEvent this ev handler w =
     (if ev \<in> set localTauriEvents then
        (case listeners (windows w this) ev of
           None \<Rightarrow> (True, set_listeners this ev [handler] w)
         | Some l \<Rightarrow> (True, set_listeners this ev (l @ [handler]) w))
      else (False, w))"

text \<open>
  The function a call of \<open>listen\<close> or \<open>once\<close> resolves to: the closure over \<open>this\<close>,
  \<open>event\<close> and \<open>handler\<close> of the local path, or the one the event subsystem returned.
\<close>

datatype unlisten =
    LocalUnlisten nat string handler
  | RemoteUnlisten nat

definition listen :: "nat \<Rightarrow> string \<Rightarrow> handler \<Rightarrow> world \<Rightarrow> unlisten \<times> world" where
  "listen this ev handler w =
     (case handleTauriEvent this ev handler w of
        (True, w') \<Rightarrow> (LocalUnlisten this ev handler, w')
      | (False, w') \<Rightarrow>
          (RemoteUnlisten (length (remote w')),
           w'\<lparr>remote := remote w' @ [RemoteListen ev handler (label (windows w' this))]\<rparr>))"

definition once :: "nat \<Rightarrow> string \<Rightarrow> handler \<Rightarrow> world \<Rightarrow> unlisten \<times> world" where
  "once this ev handler w =
     (case handleTauriEvent this ev handler w of
        (True, w') \<Rightarrow> (LocalUnlisten this ev handler, w')
      | (False, w') \<Rightarrow>
          (RemoteUnlisten (length (remote w')),
           w'\<lparr>remote := remote w' @ [RemoteOnce ev handler (label (windows w' this))]\<rparr>))"

text \<open>
  Calling the unlisten function. The local closure reads \<open>this.listeners[event]\<close> and
  splices at \<open>indexOf(handler)\<close>; were the entry missing, the method call on
  \<open>undefined\<close> would throw.
\<close>

fun call_unlisten :: "unlisten \<Rightarrow> world \<Rightarrow> jsval option \<times> world" where
  "call_unlisten (LocalUnlisten this ev handler) w =
     (case listeners (windows w this) ev of
        None \<Rightarrow> (Some (Error ''TypeError''), w)
      | Some l \<Rightarrow> (None, set_listeners this ev (splice_js l (indexOf l handler) 1) w))"
| "call_unlisten (RemoteUnlisten k) w = (None, w\<lparr>remote := remote w @ [RemoteUnlistenCall k]\<rparr>)"

text \<open>
  The loop of \<open>Window.emit\<close>, \<open>for (const handler of this.listeners[event])\<close>: the array
  iterator keeps an index into the array itself and compares it with the length the
  array has at that moment. A handler that throws ends the loop. The handlers called,
  with their envelopes, are collected in \<open>called\<close>. A handler may add handlers to the
  array it is called from, so the loop need not end: \<open>None\<close> is a loop that runs forever.
\<close>

partial_function (option) dispatch ::
  "behaviour \<Rightarrow> nat \<Rightarrow> string \<Rightarrow> jsval \<Rightarrow> nat \<Rightarrow> call list \<Rightarrow> world
     \<Rightarrow> (promise \<times> call list \<times> world) option"
where
  "dispatch beh this ev pl i called w =
     (let arr = (case listeners (windows w this) ev of None \<Rightarrow> [] | Some l \<Rightarrow> l) in
      if i < length arr then
        (let handler = arr ! i;
             e = \<lparr>event = ev, id' = - 1, windowLabel = label (windows w this), payload = pl\<rparr>
         in case beh handler e w of
              (Some thrown, w') \<Rightarrow> Some (Rejected thrown, called @ [(handler, e, Some thrown)], w')
            | (None, w') \<Rightarrow> dispatch beh this ev pl (i + 1) (called @ [(handler, e, None)]) w')
      else Some (Resolved, called, w))"

text \<open>
  \<open>Window.emit\<close>. With no entry for the event the loop runs over a new empty array.
  The result is the promise returned, the calls made, and the world.
\<close>

definition emit ::
  "behaviour \<Rightarrow> nat \<Rightarrow> string \<Rightarrow> jsval \<Rightarrow> world
     \<Rightarrow> (promise \<times> call list \<times> world) option"
where
  "emit beh this ev pl w =
     (if ev \<in> set localTauriEvents then
        (case listeners (windows w this) ev of
           None \<Rightarrow> Some (Resolved, [], w)
         | Some l \<Rightarrow> dispatch beh this ev pl 0 [] w)
      else Some (RemoteReply (length (remote w)), [],
                 w\<lparr>remote := remote w @ [RemoteEmit ev pl (label (windows w this))]\<rparr>))"


section \<open>Construction\<close>

text \<open>
  The constructor of \<open>Window\<close>: a new object with its own empty listener table; unless
  the options carry a truthy \<open>skip\<close>, the create command is handed to the host. The
  options are the properties of the options object.
\<close>

definition Window_new :: "string \<Rightarrow> (string \<times> jsval) list \<Rightarrow> world \<Rightarrow> nat \<times> world" where
  "Window_new lbl options w =
     (let this = next_ref w;
          w1 = w\<lparr>windows := (windows w)(this := \<lparr>label = lbl, listeners = Map.empty\<rparr>),
                 next_ref := this + 1\<rparr>
      in if \<not> truthy (get (Obj options) ''skip'')
         then (this, snd (TAURI_INVOKE ''plugin:window|create''
                            (Obj [(''options'', Obj (spread_with options ''label'' (Str lbl)))]) w1))
         else (this, w1))"

text \<open>How the host settles the promise of the create command.\<close>

datatype settled = HostResolved | HostRejected jsval

text \<open>
  The chain \<open>.then(async () => this.emit("tauri://created")).catch(async (e) =>
  this.emit("tauri://error", e))\<close> of the constructor, run when the host settles the
  command. The \<open>catch\<close> is chained behind the \<open>then\<close>, so it also receives the rejection
  of the promise that the \<open>then\<close> callback returned. The result lists the events
  emitted, each with the calls it made.
\<close>

definition create_settled ::
  "behaviour \<Rightarrow> nat \<Rightarrow> settled \<Rightarrow> world
     \<Rightarrow> ((string \<times> call list) list \<times> world) option"
where
  "create_settled beh this outcome w =
     (case outcome of
        HostRejected e \<Rightarrow>
          (case emit beh this ''tauri://error'' e w of
             None \<Rightarrow> None
           | Some (p, called, w') \<Rightarrow> Some ([(''tauri://error'', called)], w'))
      | HostResolved \<Rightarrow>
          (case emit beh this ''tauri://created'' Undefined w of
             None \<Rightarrow> None
           | Some (Rejected e, called, w') \<Rightarrow>
               (case emit beh this ''tauri://error'' e w' of
                  None \<Rightarrow> None
                | Some (p, called', w'') \<Rightarrow>
                    Some ([(''tauri://created'', called), (''tauri://error'', called')], w''))
           | Some (p, called, w') \<Rightarrow> Some ([(''tauri://created'', called)], w')))"


section \<open>Close negotiation\<close>

text \<open>The class \<open>CloseRequestedEvent\<close>; \<open>preventDefault_flag\<close> is its field \<open>_preventDefault\<close>.\<close>

record CloseRequestedEvent =
  preventDefault_flag :: bool
  cre_event :: string
  cre_windowLabel :: string
  cre_id :: int

definition CloseRequestedEvent_new :: "Event \<Rightarrow> CloseRequestedEvent" where
  "CloseRequestedEvent_new e =
     \<lparr>preventDefault_flag = False, cre_event = event e, cre_windowLabel = windowLabel e,
      cre_id = id' e\<rparr>"

definition preventDefault :: "CloseRequestedEvent \<Rightarrow> CloseRequestedEvent" where
  "preventDefault this = this\<lparr>preventDefault_flag := True\<rparr>"

definition isPreventDefault :: "CloseRequestedEvent \<Rightarrow> bool" where
  "isPreventDefault this = preventDefault_flag this"

text \<open>
  One run of the client's close handler, as the module sees it: the calls it makes
  before its outcome is known (to \<open>preventDefault\<close> of the event it was given, and
  commands of its own to the host), and the outcome: it throws, or the promise made
  from its result by \<open>Promise.resolve\<close> fulfils, rejects or stays pending.
\<close>

datatype hstep = CallPreventDefault | CallInvoke string jsval

datatype outcome = Throws jsval | Fulfils | Rejects jsval | Hangs

type_synonym close_handler = "CloseRequestedEvent \<Rightarrow> hstep list \<times> outcome"

fun run_step :: "hstep \<Rightarrow> CloseRequestedEvent \<times> world \<Rightarrow> CloseRequestedEvent \<times> world" where
  "run_step CallPreventDefault (evt, w) = (preventDefault evt, w)"
| "run_step (CallInvoke cmd args) (evt, w) = (evt, snd (TAURI_INVOKE cmd args w))"

text \<open>The commands a handler run hands to the host itself.\<close>

fun own_commands :: "hstep list \<Rightarrow> (string \<times> jsval) list" where
  "own_commands [] = []"
| "own_commands (CallPreventDefault # ss) = own_commands ss"
| "own_commands (CallInvoke cmd args # ss) = (cmd, args) # own_commands ss"

text \<open>
  The callback that \<open>onCloseRequested\<close> registers for the close-requested event:
  it builds the event object, calls the handler, and the \<open>then\<close> callback, which runs
  only when the handler's promise fulfils, closes the window unless the flag is set.
  The result is the value the callback throws, if any, and the world.
\<close>

definition onCloseRequested_callback ::
  "nat \<Rightarrow> close_handler \<Rightarrow> Event \<Rightarrow> world \<Rightarrow> jsval option \<times> world"
where
  "onCloseRequested_callback this handler e w =
     (let evt = CloseRequestedEvent_new e;
          run = handler evt;
          st = fold run_step (fst run) (evt, w)
      in case snd run of
           Throws thrown \<Rightarrow> (Some thrown, snd st)
         | Fulfils \<Rightarrow>
             (None, if \<not> isPreventDefault (fst st) then snd (close this (snd st)) else snd st)
         | Rejects reason \<Rightarrow> (None, snd st)
         | Hangs \<Rightarrow> (None, snd st))"


section \<open>Example worlds and handlers\<close>

text \<open>An empty world, and the behaviours and handler runs the examples below use.\<close>

definition world0 :: world where
  "world0 = \<lparr>windows = (\<lambda>r. \<lparr>label = [], listeners = Map.empty\<rparr>), next_ref = 0,
             invoked = [], remote = []\<rparr>"

text \<open>Every handler returns without touching the world.\<close>

definition beh_quiet :: behaviour where
  "beh_quiet h e w = (None, w)"

text \<open>Handler 1 throws, every other handler returns.\<close>

definition beh_throw1 :: behaviour where
  "beh_throw1 h e w = (if h = 1 then (Some (Error ''boom''), w) else (None, w))"

text \<open>
  Handler 1 calls the unlisten function it got from \<open>listen\<close> on window 0 for the
  event it is called with; every other handler returns.
\<close>

definition beh_unlisten1 :: behaviour where
  "beh_unlisten1 h e w =
     (if h = 1 then call_unlisten (LocalUnlisten 0 (event e) 1) w else (None, w))"

text \<open>
  Handler 1 calls that unlisten function only when the payload is \<open>stop\<close>; with any
  other payload it returns, as every other handler does.
\<close>

definition beh_unlisten1_on_stop :: behaviour where
  "beh_unlisten1_on_stop h e w =
     (if h = 1 \<and> payload e = Str ''stop''
      then call_unlisten (LocalUnlisten 0 (event e) 1) w else (None, w))"

text \<open>
  Runs of close handlers: one throws at once; one is an \<open>async\<close> handler whose promise
  rejects; one asks the host for a confirmation and fulfils; one asks and then calls
  \<open>preventDefault\<close> before it fulfils. None of the first three calls \<open>preventDefault\<close>.
\<close>

definition throwing_close_handler :: close_handler where
  "throwing_close_handler evt = ([], Throws (Error ''boom''))"

definition rejecting_close_handler :: close_handler where
  "rejecting_close_handler evt = ([], Rejects (Error ''boom''))"

definition consenting_close_handler :: close_handler where
  "consenting_close_handler evt = ([CallInvoke ''plugin:dialog|confirm'' Null], Fulfils)"

definition preventing_close_handler :: close_handler where
  "preventing_close_handler evt =
     ([CallInvoke ''plugin:dialog|confirm'' Null, CallPreventDefault], Fulfils)"

text \<open>The close-requested event as the event subsystem delivers it.\<close>

definition close_requested :: Event where
  "close_requested =
     \<lparr>event = ''tauri://close-requested'', id' = 5, windowLabel = ''w1'', payload = Undefined\<rparr>"

text \<open>
  A handle to the existing window \<open>w1\<close>, as \<open>getCurrent\<close> and \<open>getByLabel\<close> build
  it (\<open>skip: true\<close>); it is object 0.
\<close>

definition world_skip :: world where
  "world_skip = snd (Window_new ''w1'' [(''skip'', Bool True)] world0)"

text \<open>Handlers 1 and 2 registered, in this order, for the created event.\<close>

definition world_two :: world where
  "world_two =
     snd (listen 0 ''tauri://created'' 2 (snd (listen 0 ''tauri://created'' 1 world_skip)))"

text \<open>Handler 7 registered with \<open>once\<close> for the created event.\<close>

definition world_once :: world where
  "world_once = snd (once 0 ''tauri://created'' 7 world_skip)"

text \<open>
  A window constructed with creation, with handler 1 listening for the created event
  and handler 2 for the error event, before the host has settled the command.
\<close>

definition world_created :: world where
  "world_created =
     snd (listen 0 ''tauri://error'' 2
       (snd (listen 0 ''tauri://created'' 1 (snd (Window_new ''w1'' [] world0)))))"

text \<open>A second handle to the window \<open>w1\<close>; it is object 1.\<close>

definition world_pair :: world where
  "world_pair = snd (Window_new ''w1'' [(''skip'', Bool True)] world_skip)"

text \<open>Two emits of the same event, one after the other: the handlers they call.\<close>

definition handlers_called_by_two_emits ::
  "behaviour \<Rightarrow> nat \<Rightarrow> string \<Rightarrow> jsval \<Rightarrow> world \<Rightarrow> handler list option" where
  "handlers_called_by_two_emits beh this ev pl w =
     (case emit beh this ev pl w of
        None \<Rightarrow> None
      | Some (p1, called1, w1) \<Rightarrow>
          (case emit beh this ev pl w1 of
             None \<Rightarrow> None
           | Some (p2, called2, w2) \<Rightarrow> Some (map fst called1 @ map fst called2)))"


section \<open>Replacing the listener table of one object\<close>

text \<open>
  \<open>set_table b t w\<close> is the world \<open>w\<close> with the listener table of object \<open>b\<close>
  replaced by \<open>t\<close>. An operation that gives the same result in \<open>set_table b t w\<close> as in
  \<open>w\<close>, and leaves \<open>set_table b t\<close> of the world it leaves from \<open>w\<close>, neither reads nor
  writes the table of \<open>b\<close>.
\<close>

definition set_table :: "nat \<Rightarrow> (string \<rightharpoonup> handler list) \<Rightarrow> world \<Rightarrow> world" where
  "set_table b t w = w\<lparr>windows := (windows w)(b := (windows w b)\<lparr>listeners := t\<rparr>)\<rparr>"


section \<open>Live iteration, stated on its own\<close>

text \<open>
  What it means that a dispatch reads the array while it runs, written without the
  loop, to be compared with \<open>emit\<close>. \<open>live_array\<close> is the array of the handle for the
  event as a world has it, \<open>live_envelope\<close> the envelope built in that world.
  \<open>world_after \<dots> w k\<close> is the world after the first \<open>k\<close> calls of a dispatch started
  in \<open>w\<close>, where call number \<open>k\<close> goes to the handler at index \<open>k\<close> of the array as the
  world after the first \<open>k\<close> calls has it; \<open>live_call \<dots> w k\<close> is that call: the handler,
  the envelope, and what the handler threw.
\<close>

definition live_array :: "world \<Rightarrow> nat \<Rightarrow> string \<Rightarrow> handler list" where
  "live_array w this ev = (case listeners (windows w this) ev of None \<Rightarrow> [] | Some l \<Rightarrow> l)"

definition live_envelope :: "world \<Rightarrow> nat \<Rightarrow> string \<Rightarrow> jsval \<Rightarrow> Event" where
  "live_envelope w this ev pl =
     \<lparr>event = ev, id' = - 1, windowLabel = label (windows w this), payload = pl\<rparr>"

fun world_after :: "behaviour \<Rightarrow> nat \<Rightarrow> string \<Rightarrow> jsval \<Rightarrow> world \<Rightarrow> nat \<Rightarrow> world" where
  "world_after beh this ev pl w 0 = w"
| "world_after beh this ev pl w (Suc k) =
     (let v = world_after beh this ev pl w k in
      if k < length (live_array v this ev)
      then snd (beh (live_array v this ev ! k) (live_envelope v this ev pl) v)
      else v)"

definition live_call :: "behaviour \<Rightarrow> nat \<Rightarrow> string \<Rightarrow> jsval \<Rightarrow> world \<Rightarrow> nat \<Rightarrow> call" where
  "live_call beh this ev pl w k =
     (let v = world_after beh this ev pl w k;
          handler = live_array v this ev ! k;
          e = live_envelope v this ev pl
      in (handler, e, fst (beh handler e v)))"


section \<open>Geometry conversion\<close>

text \<open>
  C8. For every scale factor \<open>s > 0\<close> and physical value with components
  \<open>(a, b)\<close>, \<open>toLogical\<close> gives the logical value with components \<open>(a / s, b / s)\<close>,
  for sizes and for positions.
\<close>

theorem C8_toLogical:
  "0 < s \<Longrightarrow>
     PhysicalSize_toLogical (PhysicalSize a b) s = LogicalSize (a / s) (b / s) \<and>
     PhysicalPosition_toLogical (PhysicalPosition a b) s = LogicalPosition (a / s) (b / s)"
  by (simp add: PhysicalSize_toLogical_def PhysicalPosition_toLogical_def
      PhysicalSize_def PhysicalPosition_def)

text \<open>C8, at an 800 by 600 size and the position (30, 50), with scale factor 2.\<close>

theorem C8_toLogical_witness:
  "(0::real) < 2 \<and>
   PhysicalSize_toLogical (PhysicalSize 800 600) 2 = \<lparr>type = ''Logical'', width = 400, height = 300\<rparr> \<and>
   PhysicalPosition_toLogical (PhysicalPosition 30 50) 2 = \<lparr>ptype = ''Logical'', x = 15, y = 25\<rparr>"
  using C8_toLogical [of 2 800 600] C8_toLogical [of 2 30 50]
  by (simp add: LogicalSize_def LogicalPosition_def)


section \<open>Argument validation\<close>

text \<open>
  C6. When the tag of the size argument is neither \<open>Logical\<close> nor \<open>Physical\<close>,
  \<open>setSize\<close> fails before any round trip: the promise it returns is already rejected
  with the argument error, and no command is handed to the host; the world is as it was.
\<close>

theorem C6_setSize_invalid_tag:
  "get size' ''type'' \<noteq> Str ''Logical'' \<Longrightarrow> get size' ''type'' \<noteq> Str ''Physical'' \<Longrightarrow>
     fst (setSize this size' w) =
       Rejected (Error ''the `size` argument must be either a LogicalSize or a PhysicalSize instance'') \<and>
     snd (setSize this size' w) = w \<and>
     invoked (snd (setSize this size' w)) = invoked w"
  by (simp add: setSize_def)

text \<open>C6, at a size object tagged \<open>Percent\<close>, on a handle to the window \<open>main\<close>.\<close>

theorem C6_setSize_invalid_tag_witness:
  "get (Obj [(''type'', Str ''Percent''), (''width'', Num 50), (''height'', Num 50)]) ''type''
     \<noteq> Str ''Logical'' \<and>
   get (Obj [(''type'', Str ''Percent''), (''width'', Num 50), (''height'', Num 50)]) ''type''
     \<noteq> Str ''Physical'' \<and>
   fst (setSize 0 (Obj [(''type'', Str ''Percent''), (''width'', Num 50), (''height'', Num 50)])
          world_skip) =
     Rejected (Error ''the `size` argument must be either a LogicalSize or a PhysicalSize instance'') \<and>
   invoked (snd (setSize 0 (Obj [(''type'', Str ''Percent''), (''width'', Num 50), (''height'', Num 50)])
                   world_skip)) = []"
  using C6_setSize_invalid_tag
    [of "Obj [(''type'', Str ''Percent''), (''width'', Num 50), (''height'', Num 50)]" 0 world_skip]
  by (simp add: world_skip_def world0_def Window_new_def)


section \<open>Valid sizes reach the host\<close>

text \<open>
  The guard of \<open>setSize\<close> lets the two recognised tags through: the command is handed
  to the host with the tag and the two numbers.
\<close>

lemma setSize_valid:
  "type s = ''Logical'' \<or> type s = ''Physical'' \<Longrightarrow>
     setSize this (size_value s) w =
       TAURI_INVOKE ''plugin:window|set_size''
         (Obj [(''label'', Str (label (windows w this))),
               (''value'', Obj [(''type'', Str (type s)),
                                (''data'', Obj [(''width'', Num (width s)),
                                                (''height'', Num (height s))])])]) w"
  by (auto simp: setSize_def size_value_def)


section \<open>Removing a handler\<close>

text \<open>
  \<open>indexOf\<close> gives \<open>-1\<close> exactly for a value that is not in the array, and a position
  inside the array otherwise. With the index of a value that is there, \<open>splice\<close> removes
  its first occurrence; with \<open>-1\<close> it removes the last element of the array.
\<close>

lemma indexOf_notin: "v \<notin> set xs \<Longrightarrow> indexOf xs v = - 1"
  by (induction xs) (auto simp: Let_def)

lemma indexOf_in: "v \<in> set xs \<Longrightarrow> 0 \<le> indexOf xs v \<and> indexOf xs v < int (length xs)"
  by (induction xs) (auto simp: Let_def)

lemma splice_remove1: "v \<in> set xs \<Longrightarrow> splice_js xs (indexOf xs v) 1 = remove1 v xs"
proof (induction xs)
  case Nil then show ?case by simp
next
  case (Cons a xs)
  show ?case
  proof (cases "a = v")
    case True then show ?thesis by (simp add: splice_js_def)
  next
    case False
    with Cons.prems have vin: "v \<in> set xs" by simp
    from indexOf_in [OF vin] have b: "0 \<le> indexOf xs v" "indexOf xs v < int (length xs)" by auto
    from Cons.IH [OF vin] b have "take (nat (indexOf xs v)) xs @ drop (nat (indexOf xs v + 1)) xs = remove1 v xs"
      by (simp add: splice_js_def Let_def min_def max_def split: if_splits)
    with False b show ?thesis
      by (simp add: splice_js_def Let_def min_def max_def nat_add_distrib)
  qed
qed

lemma splice_butlast: "splice_js xs (- 1) 1 = butlast xs"
  by (cases xs rule: rev_cases) (auto simp: splice_js_def Let_def min_def max_def nat_diff_distrib butlast_conv_take)

text \<open>
  So the local unlisten function removes the first occurrence of its handler while the
  handler is registered, and the last handler of the list, whichever it is, once its
  own handler is gone.
\<close>

lemma call_unlisten_local:
  "listeners (windows w this) ev = Some l \<Longrightarrow>
     call_unlisten (LocalUnlisten this ev h) w =
       (None, set_listeners this ev (if h \<in> set l then remove1 h l else butlast l) w)"
  by (simp add: splice_remove1 indexOf_notin splice_butlast)

text \<open>The definitions that the evaluation of the example worlds unfolds.\<close>

lemmas example_defs =
  world0_def world_skip_def world_two_def world_once_def world_created_def world_pair_def
  Window_new_def listen_def once_def handleTauriEvent_def localTauriEvents_def set_listeners_def
  TAURI_INVOKE_def

text \<open>
  C2. The specification: the unlisten function returned by \<open>listen(e, h)\<close> removes one
  occurrence of \<open>h\<close>, and a second call neither fails nor removes another handler.
  On the code, with handlers 1 and 2 registered for the created event, the first call
  of the unlisten function of handler 1 leaves \<open>[2]\<close>; the second call does not throw,
  and leaves the empty list: it has removed handler 2.
\<close>

theorem C2_second_unlisten_removes_other_handler:
  "fst (listen 0 ''tauri://created'' 1 world_skip) = LocalUnlisten 0 ''tauri://created'' 1 \<and>
   listeners (windows world_two 0) ''tauri://created'' = Some [1, 2] \<and>
   listeners (windows (snd (call_unlisten (LocalUnlisten 0 ''tauri://created'' 1) world_two)) 0)
     ''tauri://created'' = Some [2] \<and>
   fst (call_unlisten (LocalUnlisten 0 ''tauri://created'' 1)
         (snd (call_unlisten (LocalUnlisten 0 ''tauri://created'' 1) world_two))) = None \<and>
   listeners (windows (snd (call_unlisten (LocalUnlisten 0 ''tauri://created'' 1)
                        (snd (call_unlisten (LocalUnlisten 0 ''tauri://created'' 1) world_two)))) 0)
     ''tauri://created'' = Some []"
  by (simp add: example_defs splice_js_def)


section \<open>One-shot listeners\<close>

text \<open>For a local event \<open>once\<close> does what \<open>listen\<close> does: nothing removes the handler.\<close>

lemma once_local_is_listen:
  "ev \<in> set localTauriEvents \<Longrightarrow> once this ev h w = listen this ev h w"
  by (simp add: once_def listen_def handleTauriEvent_def split: option.splits)

text \<open>
  C1. The specification: a handler registered with \<open>once\<close> for a local event is called one
  time by two emits of the event. On the code, handler 7 registered with \<open>once\<close> for the
  created event is called by the first emit and again by the second.
\<close>

theorem C1_once_handler_called_by_every_emit:
  "fst (once 0 ''tauri://created'' 7 world_skip) = LocalUnlisten 0 ''tauri://created'' 7 \<and>
   handlers_called_by_two_emits beh_quiet 0 ''tauri://created'' Undefined world_once = Some [7, 7]"
  by (simp add: handlers_called_by_two_emits_def emit_def dispatch.simps beh_quiet_def example_defs)


section \<open>Dispatch\<close>

text \<open>The three ways one turn of the loop goes.\<close>

lemma dispatch_done:
  "\<not> i < length (case listeners (windows w this) ev of None \<Rightarrow> [] | Some l \<Rightarrow> l) \<Longrightarrow>
     dispatch beh this ev pl i called w = Some (Resolved, called, w)"
  by (subst dispatch.simps) simp


lemma dispatch_next:
  "listeners (windows w this) ev = Some l \<Longrightarrow> i < length l \<Longrightarrow>
   fst (beh (l ! i) \<lparr>event = ev, id' = - 1, windowLabel = label (windows w this), payload = pl\<rparr> w) = None \<Longrightarrow>
     dispatch beh this ev pl i called w =
       dispatch beh this ev pl (Suc i)
         (called @ [(l ! i, \<lparr>event = ev, id' = - 1, windowLabel = label (windows w this), payload = pl\<rparr>, None)])
         (snd (beh (l ! i) \<lparr>event = ev, id' = - 1, windowLabel = label (windows w this), payload = pl\<rparr> w))"
  by (subst dispatch.simps) (auto simp add: Let_def split: prod.splits)

text \<open>
  C10. With no handler registered for a local event on the handle (no entry, or an
  entry that is the empty array), \<open>emit\<close> returns a resolved promise, calls no handler
  and leaves the world, the listener table with it, as it was.
\<close>

theorem C10_emit_no_handlers:
  "ev \<in> set localTauriEvents \<Longrightarrow>
   listeners (windows w this) ev = None \<or> listeners (windows w this) ev = Some [] \<Longrightarrow>
     emit beh this ev pl w = Some (Resolved, [], w)"
  by (auto simp: emit_def dispatch_done)

text \<open>C10, at the error event of a handle that has handlers for the created event only.\<close>

theorem C10_witness:
  "''tauri://error'' \<in> set localTauriEvents \<and>
   (listeners (windows world_two 0) ''tauri://error'' = None \<or>
    listeners (windows world_two 0) ''tauri://error'' = Some []) \<and>
   emit beh_throw1 0 ''tauri://error'' (Str ''x'') world_two = Some (Resolved, [], world_two)"
  using C10_emit_no_handlers [of "''tauri://error''" world_two 0 beh_throw1 "Str ''x''"]
  by (simp add: example_defs)

text \<open>
  C3, as the specification states it: the handlers called are those registered when the
  dispatch starts, also when a handler unregisters itself during the dispatch. On the
  code, with handlers 1 and 2 registered and handler 1 calling its own unlisten
  function, the emit calls handler 1 only: the array is now \<open>[2]\<close>, the iterator is at
  index 1, and the loop ends with handler 2 never called.
\<close>

theorem C3_unlisten_during_dispatch_skips_handler:
  "listeners (windows world_two 0) ''tauri://created'' = Some [1, 2] \<and>
   emit beh_unlisten1 0 ''tauri://created'' Undefined world_two =
     Some (Resolved,
           [(1, \<lparr>event = ''tauri://created'', id' = - 1, windowLabel = ''w1'', payload = Undefined\<rparr>, None)],
           set_listeners 0 ''tauri://created'' [2] world_two)"
  by (simp add: emit_def dispatch.simps beh_unlisten1_def example_defs splice_js_def)

text \<open>
  Every dispatch that ends has made the calls of the live iteration: the calls are
  \<open>live_call\<close> number 0, 1, \<dots> in this order, each index was inside the array as it was
  at that moment, the world left is the world after these calls, and a dispatch that
  resolves has stopped because the index had reached the length of the array.
\<close>

lemma dispatch_live:
  assumes "dispatch beh this ev pl i called w = Some r"
    and "w = world_after beh this ev pl w0 i"
    and "called = map (live_call beh this ev pl w0) [0..<i]"
    and "\<forall>k<i. k < length (live_array (world_after beh this ev pl w0 k) this ev)"
  shows "fst (snd r) = map (live_call beh this ev pl w0) [0..<length (fst (snd r))] \<and>
         (\<forall>k<length (fst (snd r)). k < length (live_array (world_after beh this ev pl w0 k) this ev)) \<and>
         snd (snd r) = world_after beh this ev pl w0 (length (fst (snd r))) \<and>
         (fst r = Resolved \<longrightarrow>
            \<not> length (fst (snd r)) < length (live_array (snd (snd r)) this ev))"
  using assms
proof (induction beh this ev pl i called w r rule: dispatch.raw_induct [rotated 1, consumes 1, case_names step])
  case (step dispatch' beh this ev pl i called w r)
  let ?arr = "case listeners (windows w this) ev of None \<Rightarrow> [] | Some l \<Rightarrow> l"
  let ?e = "\<lparr>event = ev, id' = - 1, windowLabel = label (windows w this), payload = pl\<rparr>"
  have arr: "?arr = live_array w this ev" by (simp add: live_array_def)
  have env: "?e = live_envelope w this ev pl" by (simp add: live_envelope_def)
  from step(4) have len: "length called = i" by simp
  show ?case
  proof (cases "i < length ?arr")
    case False
    with step(2) have "r = (Resolved, called, w)" by (simp add: Let_def)
    with False step(3,4,5) len arr show ?thesis by simp
  next
    case True
    obtain t v where b: "beh (?arr ! i) ?e w = (t, v)" by (cases "beh (?arr ! i) ?e w")
    from True arr step(3) b env have v: "v = world_after beh this ev pl w0 (Suc i)"
      by (simp add: Let_def)
    from step(3) b arr env have lc: "live_call beh this ev pl w0 i = (?arr ! i, ?e, t)"
      by (simp add: live_call_def Let_def)
    from step(4) lc have called': "called @ [(?arr ! i, ?e, t)] = map (live_call beh this ev pl w0) [0..<Suc i]"
      by simp
    from step(5) True arr step(3)
    have bound: "\<forall>k<Suc i. k < length (live_array (world_after beh this ev pl w0 k) this ev)"
      by (auto simp: less_Suc_eq)
    show ?thesis
    proof (cases t)
      case (Some thrown)
      with step(2) True b have r: "r = (Rejected thrown, called @ [(?arr ! i, ?e, Some thrown)], v)"
        by (simp add: Let_def)
      from called' Some have c: "called @ [(?arr ! i, ?e, Some thrown)] = map (live_call beh this ev pl w0) [0..<Suc i]"
        by simp
      have l: "length (called @ [(?arr ! i, ?e, Some thrown)]) = Suc i" using len by simp
      from r c l bound v show ?thesis by (simp del: upt_Suc)
    next
      case None
      with step(2) True b have d: "dispatch' beh this ev pl (i + 1) (called @ [(?arr ! i, ?e, None)]) v = Some r"
        by (simp add: Let_def)
      from called' None have c: "called @ [(?arr ! i, ?e, None)] = map (live_call beh this ev pl w0) [0..<i + 1]"
        by simp
      from v have v': "v = world_after beh this ev pl w0 (i + 1)" by simp
      from bound have bound': "\<forall>k<i + 1. k < length (live_array (world_after beh this ev pl w0 k) this ev)"
        by simp
      from step(1) [OF d v' c bound'] show ?thesis .
    qed
  qed
qed

lemma emit_live:
  assumes "ev \<in> set localTauriEvents" and "emit beh this ev pl w = Some (p, calls, w')"
  shows "calls = map (live_call beh this ev pl w) [0..<length calls] \<and>
         (\<forall>k<length calls. k < length (live_array (world_after beh this ev pl w k) this ev)) \<and>
         w' = world_after beh this ev pl w (length calls) \<and>
         (p = Resolved \<longrightarrow> \<not> length calls < length (live_array w' this ev))"
proof (cases "listeners (windows w this) ev")
  case None
  with assms have "p = Resolved \<and> calls = [] \<and> w' = w" by (simp add: emit_def)
  with None show ?thesis by (simp add: live_array_def)
next
  case (Some l)
  with assms have d: "dispatch beh this ev pl 0 [] w = Some (p, calls, w')" by (simp add: emit_def)
  have 1: "w = world_after beh this ev pl w 0" by simp
  have 2: "[] = map (live_call beh this ev pl w) [0..<0]" by simp
  have 3: "\<forall>k<0. k < length (live_array (world_after beh this ev pl w k) this ev)" by simp
  show ?thesis using dispatch_live [OF d 1 2 3] unfolding fst_conv snd_conv .
qed

text \<open>
  While the calls return and leave the array as it was at the start, the worlds of the
  dispatch all have that array, and the loop from index \<open>i\<close> calls the handlers from
  \<open>i\<close> on, in the order of the array, and ends.
\<close>

lemma stable_worlds:
  assumes "listeners (windows w this) ev = Some hs"
    and "\<forall>k<length hs. snd (snd (live_call beh this ev pl w k)) = None \<and>
           listeners (windows (world_after beh this ev pl w (Suc k)) this) ev = Some hs"
  shows "i \<le> length hs \<Longrightarrow> listeners (windows (world_after beh this ev pl w i) this) ev = Some hs"
  using assms by (cases i) auto

lemma dispatch_stable_live:
  assumes start: "listeners (windows w this) ev = Some hs"
    and quiet: "\<forall>k<length hs. snd (snd (live_call beh this ev pl w k)) = None \<and>
           listeners (windows (world_after beh this ev pl w (Suc k)) this) ev = Some hs"
  shows "n = length hs - i \<Longrightarrow> i \<le> length hs \<Longrightarrow>
     \<exists>called' w'. dispatch beh this ev pl i called (world_after beh this ev pl w i) =
          Some (Resolved, called', w') \<and>
        map fst called' = map fst called @ drop i hs \<and>
        listeners (windows w' this) ev = Some hs"
proof (induction n arbitrary: i called)
  case 0
  let ?v = "world_after beh this ev pl w i"
  from 0 have i: "i = length hs" by simp
  from stable_worlds [OF start quiet, of i] 0 have l: "listeners (windows ?v this) ev = Some hs" by simp
  with i have "dispatch beh this ev pl i called ?v = Some (Resolved, called, ?v)"
    by (simp add: dispatch_done)
  with l i show ?case by simp
next
  case (Suc n)
  let ?v = "world_after beh this ev pl w i"
  let ?e = "\<lparr>event = ev, id' = - 1, windowLabel = label (windows ?v this), payload = pl\<rparr>"
  from Suc.prems have i: "i < length hs" by simp
  from stable_worlds [OF start quiet, of i] i have l: "listeners (windows ?v this) ev = Some hs" by simp
  then have arr: "live_array ?v this ev = hs" by (simp add: live_array_def)
  have env: "live_envelope ?v this ev pl = ?e" by (simp add: live_envelope_def)
  from quiet i have "snd (snd (live_call beh this ev pl w i)) = None" by simp
  with arr env have q: "fst (beh (hs ! i) ?e ?v) = None" by (simp add: live_call_def Let_def)
  from arr env i have nxt: "world_after beh this ev pl w (Suc i) = snd (beh (hs ! i) ?e ?v)"
    by (simp add: Let_def)
  from Suc.prems have n: "n = length hs - Suc i" and le: "Suc i \<le> length hs" by simp_all
  from Suc.IH [OF n le, of "called @ [(hs ! i, ?e, None)]"]
  obtain called' w' where
    d: "dispatch beh this ev pl (Suc i) (called @ [(hs ! i, ?e, None)])
          (world_after beh this ev pl w (Suc i)) = Some (Resolved, called', w')"
    and m: "map fst called' = map fst (called @ [(hs ! i, ?e, None)]) @ drop (Suc i) hs"
    and l': "listeners (windows w' this) ev = Some hs" by blast
  from dispatch_next [of ?v this ev hs i beh pl called, OF l i q] d nxt
  have "dispatch beh this ev pl i called ?v = Some (Resolved, called', w')" by simp
  moreover from m i have "map fst called' = map fst called @ drop i hs"
    by (simp add: Cons_nth_drop_Suc)
  ultimately show ?case using l' by blast
qed

text \<open>
  C3, amended. A single emit of a local event calls the handlers of the live array of
  the handle, by index, and takes no snapshot: whenever the emit ends, its call number
  \<open>k\<close> went to the handler at index \<open>k\<close> of the array as it was after the first \<open>k\<close>
  calls, that index was inside the array, the world left is the world after the calls,
  and if the promise is resolved the index had reached the length of the array as it
  then was. And if, in this dispatch, each call for the handlers registered at the
  start returns without throwing and leaves the array as it was at the start, the
  emit ends with a resolved promise and has called exactly the handlers registered at
  the start, each once, in registration order.
\<close>

theorem C3_emit_reads_live_array:
  "(ev \<in> set localTauriEvents \<and> emit beh this ev pl w = Some (p, calls, w') \<longrightarrow>
      calls = map (live_call beh this ev pl w) [0..<length calls] \<and>
      (\<forall>k<length calls. k < length (live_array (world_after beh this ev pl w k) this ev)) \<and>
      w' = world_after beh this ev pl w (length calls) \<and>
      (p = Resolved \<longrightarrow> \<not> length calls < length (live_array w' this ev))) \<and>
   (ev \<in> set localTauriEvents \<and> listeners (windows w this) ev = Some hs \<and>
    (\<forall>k<length hs. snd (snd (live_call beh this ev pl w k)) = None \<and>
        listeners (windows (world_after beh this ev pl w (Suc k)) this) ev = Some hs) \<longrightarrow>
      (\<exists>called v. emit beh this ev pl w = Some (Resolved, called, v) \<and>
          map fst called = hs \<and> listeners (windows v this) ev = Some hs))"
proof (rule conjI; rule impI)
  assume "ev \<in> set localTauriEvents \<and> emit beh this ev pl w = Some (p, calls, w')"
  then have "ev \<in> set localTauriEvents" "emit beh this ev pl w = Some (p, calls, w')" by simp_all
  from emit_live [OF this]
  show "calls = map (live_call beh this ev pl w) [0..<length calls] \<and>
      (\<forall>k<length calls. k < length (live_array (world_after beh this ev pl w k) this ev)) \<and>
      w' = world_after beh this ev pl w (length calls) \<and>
      (p = Resolved \<longrightarrow> \<not> length calls < length (live_array w' this ev))" .
next
  assume "ev \<in> set localTauriEvents \<and> listeners (windows w this) ev = Some hs \<and>
    (\<forall>k<length hs. snd (snd (live_call beh this ev pl w k)) = None \<and>
        listeners (windows (world_after beh this ev pl w (Suc k)) this) ev = Some hs)"
  then have loc: "ev \<in> set localTauriEvents" and start: "listeners (windows w this) ev = Some hs"
    and quiet: "\<forall>k<length hs. snd (snd (live_call beh this ev pl w k)) = None \<and>
        listeners (windows (world_after beh this ev pl w (Suc k)) this) ev = Some hs" by simp_all
  from dispatch_stable_live [OF start quiet, of "length hs - 0" 0 "[]"]
  obtain called v where "dispatch beh this ev pl 0 [] w = Some (Resolved, called, v)"
    "map fst called = hs" "listeners (windows v this) ev = Some hs" by auto
  with loc start show "\<exists>called v. emit beh this ev pl w = Some (Resolved, called, v) \<and>
          map fst called = hs \<and> listeners (windows v this) ev = Some hs"
    by (simp add: emit_def)
qed

text \<open>
  C3 amended. First part, with handlers 1 and 2 registered and handler 1 calling its own
  unlisten function: after the one call the array is \<open>[2]\<close>, the index 1 has reached
  its length, and the emit has resolved with handler 2 not called. Second part, with
  handler 1 unlistening only on the payload \<open>stop\<close>: the emit with the payload \<open>go\<close>
  calls handlers 1 and 2 in this order, although the same handler would change the
  array in a dispatch with the payload \<open>stop\<close>.
\<close>

theorem C3_witness:
  "''tauri://created'' \<in> set localTauriEvents \<and>
   emit beh_unlisten1 0 ''tauri://created'' Undefined world_two =
     Some (Resolved,
           [(1, \<lparr>event = ''tauri://created'', id' = - 1, windowLabel = ''w1'', payload = Undefined\<rparr>, None)],
           set_listeners 0 ''tauri://created'' [2] world_two) \<and>
   world_after beh_unlisten1 0 ''tauri://created'' Undefined world_two (Suc 0) =
     set_listeners 0 ''tauri://created'' [2] world_two \<and>
   live_array (set_listeners 0 ''tauri://created'' [2] world_two) 0 ''tauri://created'' = [2] \<and>
   listeners (windows world_two 0) ''tauri://created'' = Some [1, 2] \<and>
   fst (beh_unlisten1_on_stop 1
          \<lparr>event = ''tauri://created'', id' = - 1, windowLabel = ''w1'', payload = Str ''go''\<rparr>
          world_two) = None \<and>
   listeners (windows (snd (beh_unlisten1_on_stop 1
          \<lparr>event = ''tauri://created'', id' = - 1, windowLabel = ''w1'', payload = Str ''stop''\<rparr>
          world_two)) 0) ''tauri://created'' = Some [2] \<and>
   (\<exists>called v. emit beh_unlisten1_on_stop 0 ''tauri://created'' (Str ''go'') world_two =
        Some (Resolved, called, v) \<and> map fst called = [1, 2])"
proof -
  let ?ev = "''tauri://created''"
  let ?e = "\<lparr>event = ?ev, id' = - 1, windowLabel = ''w1'', payload = Undefined\<rparr>"
  let ?w' = "set_listeners 0 ?ev [2] world_two"
  have loc: "?ev \<in> set localTauriEvents" by (simp add: localTauriEvents_def)
  have l: "listeners (windows world_two 0) ?ev = Some [1, 2]"
    and lb: "label (windows world_two 0) = ''w1''"
    by (simp_all add: example_defs)
  have e: "emit beh_unlisten1 0 ?ev Undefined world_two = Some (Resolved, [(1, ?e, None)], ?w')"
    by (simp add: emit_def dispatch.simps beh_unlisten1_def example_defs splice_js_def)
  note a = C3_emit_reads_live_array
    [where ev = ?ev and beh = beh_unlisten1 and this = 0 and pl = Undefined and w = world_two
       and p = Resolved and calls = "[(1, ?e, None)]" and w' = ?w', THEN conjunct1]
  from a loc e have wa: "world_after beh_unlisten1 0 ?ev Undefined world_two (Suc 0) = ?w'"
    by simp
  have la: "live_array ?w' 0 ?ev = [2]" by (simp add: live_array_def set_listeners_def)
  have go: "fst (beh_unlisten1_on_stop 1
          \<lparr>event = ?ev, id' = - 1, windowLabel = ''w1'', payload = Str ''go''\<rparr> world_two) = None"
    by (simp add: beh_unlisten1_on_stop_def)
  have stop: "listeners (windows (snd (beh_unlisten1_on_stop 1
          \<lparr>event = ?ev, id' = - 1, windowLabel = ''w1'', payload = Str ''stop''\<rparr> world_two)) 0) ?ev
        = Some [2]"
    by (simp add: beh_unlisten1_on_stop_def l splice_js_def set_listeners_def)
  have w1: "world_after beh_unlisten1_on_stop 0 ?ev (Str ''go'') world_two (Suc 0) = world_two"
    by (simp add: Let_def live_array_def live_envelope_def l beh_unlisten1_on_stop_def)
  have w2: "world_after beh_unlisten1_on_stop 0 ?ev (Str ''go'') world_two (Suc (Suc 0)) = world_two"
    using w1 by (simp add: Let_def live_array_def live_envelope_def l beh_unlisten1_on_stop_def)
  have c0: "snd (snd (live_call beh_unlisten1_on_stop 0 ?ev (Str ''go'') world_two 0)) = None"
    by (simp add: live_call_def Let_def live_array_def live_envelope_def l beh_unlisten1_on_stop_def)
  have c1: "snd (snd (live_call beh_unlisten1_on_stop 0 ?ev (Str ''go'') world_two (Suc 0))) = None"
    using w1 by (simp add: live_call_def Let_def live_array_def live_envelope_def l beh_unlisten1_on_stop_def)
  have q: "\<forall>k<length [1::nat, 2].
      snd (snd (live_call beh_unlisten1_on_stop 0 ?ev (Str ''go'') world_two k)) = None \<and>
      listeners (windows (world_after beh_unlisten1_on_stop 0 ?ev (Str ''go'') world_two (Suc k)) 0) ?ev
        = Some [1, 2]"
  proof (intro allI impI)
    fix k :: nat assume "k < length [1::nat, 2]"
    then have "k = 0 \<or> k = Suc 0" by auto
    then show "snd (snd (live_call beh_unlisten1_on_stop 0 ?ev (Str ''go'') world_two k)) = None \<and>
      listeners (windows (world_after beh_unlisten1_on_stop 0 ?ev (Str ''go'') world_two (Suc k)) 0) ?ev
        = Some [1, 2]"
      using c0 c1 w1 w2 l by (elim disjE) (simp_all del: world_after.simps)
  qed
  note b = C3_emit_reads_live_array
    [where ev = ?ev and beh = beh_unlisten1_on_stop and this = 0 and pl = "Str ''go''"
       and w = world_two and hs = "[1, 2]", THEN conjunct2]
  from loc l q have hyps: "?ev \<in> set localTauriEvents \<and>
      listeners (windows world_two 0) ?ev = Some [1, 2] \<and>
      (\<forall>k<length [1::nat, 2].
        snd (snd (live_call beh_unlisten1_on_stop 0 ?ev (Str ''go'') world_two k)) = None \<and>
        listeners (windows (world_after beh_unlisten1_on_stop 0 ?ev (Str ''go'') world_two (Suc k)) 0) ?ev
          = Some [1, 2])"
    by (intro conjI)
  from b [THEN mp, OF hyps] obtain called v where
    "emit beh_unlisten1_on_stop 0 ?ev (Str ''go'') world_two = Some (Resolved, called, v)"
    "map fst called = [1, 2]" by auto
  then have ex: "\<exists>called v. emit beh_unlisten1_on_stop 0 ?ev (Str ''go'') world_two =
        Some (Resolved, called, v) \<and> map fst called = [1, 2]"
    by auto
  from loc e wa la l go stop ex show ?thesis by (intro conjI)
qed





section \<open>Close negotiation, proved\<close>

text \<open>
  A handler run sets the flag exactly when it calls \<open>preventDefault\<close>; it adds its own
  commands to those handed to the host, and leaves the objects alone.
\<close>

lemma fold_run_step:
  "fold run_step steps (evt, w) = (evt', w') \<Longrightarrow>
     isPreventDefault evt' = (isPreventDefault evt \<or> CallPreventDefault \<in> set steps) \<and>
     invoked w' = invoked w @ own_commands steps \<and> windows w' = windows w"
proof (induction steps arbitrary: evt w)
  case Nil then show ?case by simp
next
  case (Cons s steps)
  show ?case
  proof (cases s)
    case CallPreventDefault
    with Cons.prems have "fold run_step steps (preventDefault evt, w) = (evt', w')" by simp
    from Cons.IH [OF this] CallPreventDefault show ?thesis
      by (simp add: preventDefault_def isPreventDefault_def)
  next
    case (CallInvoke cmd args)
    with Cons.prems have "fold run_step steps (evt, snd (TAURI_INVOKE cmd args w)) = (evt', w')" by simp
    from Cons.IH [OF this] CallInvoke show ?thesis
      by (simp add: TAURI_INVOKE_def)
  qed
qed

text \<open>
  C4, as the specification states it: a handler that never calls \<open>preventDefault\<close> leads to
  one close command. On the code, a handler whose promise rejects, and one that throws,
  never call \<open>preventDefault\<close>, and no command is handed to the host: the \<open>then\<close>
  callback that would close the window runs only when the promise fulfils.
\<close>

theorem C4_failing_handler_no_close:
  "CallPreventDefault \<notin> set (fst (rejecting_close_handler (CloseRequestedEvent_new close_requested))) \<and>
   onCloseRequested_callback 0 rejecting_close_handler close_requested world_skip = (None, world_skip) \<and>
   CallPreventDefault \<notin> set (fst (throwing_close_handler (CloseRequestedEvent_new close_requested))) \<and>
   onCloseRequested_callback 0 throwing_close_handler close_requested world_skip =
     (Some (Error ''boom''), world_skip) \<and>
   invoked world_skip = []"
  by (simp add: onCloseRequested_callback_def throwing_close_handler_def
      rejecting_close_handler_def example_defs)

text \<open>
  The commands handed to the host by one delivery of the close-requested event are
  those of the handler itself, followed by one close command for the label of the
  handle when the handler's promise fulfils and the handler has not called
  \<open>preventDefault\<close>, and by nothing otherwise.
\<close>

lemma onCloseRequested_callback_invoked:
  "invoked (snd (onCloseRequested_callback this handler e w)) =
     invoked w @ own_commands (fst (handler (CloseRequestedEvent_new e))) @
     (if snd (handler (CloseRequestedEvent_new e)) = Fulfils \<and>
         CallPreventDefault \<notin> set (fst (handler (CloseRequestedEvent_new e)))
      then [(''plugin:window|close'', Obj [(''label'', Str (label (windows w this)))])]
      else [])"
proof -
  let ?evt = "CloseRequestedEvent_new e"
  obtain evt' w' where f: "fold run_step (fst (handler ?evt)) (?evt, w) = (evt', w')"
    by (cases "fold run_step (fst (handler ?evt)) (?evt, w)")
  from fold_run_step [OF f]
  have p: "isPreventDefault evt' = (CallPreventDefault \<in> set (fst (handler ?evt)))"
    and i: "invoked w' = invoked w @ own_commands (fst (handler ?evt))"
    and l: "windows w' = windows w"
    by (simp_all add: CloseRequestedEvent_new_def isPreventDefault_def)
  show ?thesis
    by (cases "snd (handler ?evt)")
       (simp_all add: onCloseRequested_callback_def Let_def f p i l close_def TAURI_INVOKE_def)
qed

text \<open>
  C4, amended. For every delivery of the close-requested event whose handler's promise
  fulfils: if the handler never called \<open>preventDefault\<close>, exactly one close command, for
  the label of the handle, is handed to the host after the commands of the handler
  itself. And for every delivery, if the handler calls \<open>preventDefault\<close> before its
  outcome is known, no close command is handed to the host.
\<close>

theorem C4_close_negotiation:
  "(snd (handler (CloseRequestedEvent_new e)) = Fulfils \<and>
    CallPreventDefault \<notin> set (fst (handler (CloseRequestedEvent_new e))) \<longrightarrow>
      invoked (snd (onCloseRequested_callback this handler e w)) =
        invoked w @ own_commands (fst (handler (CloseRequestedEvent_new e))) @
        [(''plugin:window|close'', Obj [(''label'', Str (label (windows w this)))])]) \<and>
   (CallPreventDefault \<in> set (fst (handler (CloseRequestedEvent_new e))) \<longrightarrow>
      invoked (snd (onCloseRequested_callback this handler e w)) =
        invoked w @ own_commands (fst (handler (CloseRequestedEvent_new e))))"
  by (simp add: onCloseRequested_callback_invoked)

text \<open>
  C4 amended, at a handler that fulfils without preventing (one close command after its
  own command) and at one that prevents (no close command).
\<close>

theorem C4_close_negotiation_witness:
  "snd (consenting_close_handler (CloseRequestedEvent_new close_requested)) = Fulfils \<and>
   CallPreventDefault \<notin> set (fst (consenting_close_handler (CloseRequestedEvent_new close_requested))) \<and>
   invoked (snd (onCloseRequested_callback 0 consenting_close_handler close_requested world_skip)) =
     [(''plugin:dialog|confirm'', Null), (''plugin:window|close'', Obj [(''label'', Str ''w1'')])] \<and>
   CallPreventDefault \<in> set (fst (preventing_close_handler (CloseRequestedEvent_new close_requested))) \<and>
   invoked (snd (onCloseRequested_callback 0 preventing_close_handler close_requested world_skip)) =
     [(''plugin:dialog|confirm'', Null)]"
  using C4_close_negotiation [of consenting_close_handler close_requested 0 world_skip]
    C4_close_negotiation [of preventing_close_handler close_requested 0 world_skip]
  by (simp add: consenting_close_handler_def preventing_close_handler_def example_defs)


section \<open>The events of creation\<close>

text \<open>
  When the host rejects the create command only the error event is emitted; when it
  resolves it and the emit of the created event resolves, only the created event is
  emitted.
\<close>

lemma create_settled_rejected:
  "create_settled beh this (HostRejected reason) w =
     map_option (\<lambda>r. ([(''tauri://error'', fst (snd r))], snd (snd r)))
       (emit beh this ''tauri://error'' reason w)"
  by (simp add: create_settled_def split: option.splits)

lemma create_settled_resolved:
  "emit beh this ''tauri://created'' Undefined w = Some (Resolved, called, w') \<Longrightarrow>
     create_settled beh this HostResolved w = Some ([(''tauri://created'', called)], w')"
  by (simp add: create_settled_def)

text \<open>
  C5. The specification: when the create command resolves only the created event fires. On
  the code, for a window constructed with creation whose handler for the created event
  throws, the host resolving the command fires the created event and then the error
  event, with the value the handler threw as payload: the rejection of the promise of
  the \<open>then\<close> callback reaches the \<open>catch\<close> chained behind it.
\<close>

theorem C5_created_handler_error_fires_error_event:
  "invoked world_created =
     [(''plugin:window|create'', Obj [(''options'', Obj [(''label'', Str ''w1'')])])] \<and>
   listeners (windows world_created 0) ''tauri://created'' = Some [1] \<and>
   listeners (windows world_created 0) ''tauri://error'' = Some [2] \<and>
   create_settled beh_throw1 0 HostResolved world_created =
     Some ([(''tauri://created'',
             [(1, \<lparr>event = ''tauri://created'', id' = - 1, windowLabel = ''w1'', payload = Undefined\<rparr>,
               Some (Error ''boom''))]),
            (''tauri://error'',
             [(2, \<lparr>event = ''tauri://error'', id' = - 1, windowLabel = ''w1'', payload = Error ''boom''\<rparr>,
               None)])],
           world_created)"
  by (simp add: create_settled_def emit_def dispatch.simps beh_throw1_def example_defs)


section \<open>Instances with the same label\<close>

text \<open>
  The listener methods of one object give the same result, and leave the same world,
  whatever the table of another object holds, and they leave that table as it is.
\<close>

lemma listen_set_table:
  "a \<noteq> b \<Longrightarrow> listen a ev h (set_table b t w) =
     (fst (listen a ev h w), set_table b t (snd (listen a ev h w)))"
  by (auto simp: listen_def handleTauriEvent_def set_table_def set_listeners_def fun_upd_twist
      split: option.splits)

lemma once_set_table:
  "a \<noteq> b \<Longrightarrow> once a ev h (set_table b t w) =
     (fst (once a ev h w), set_table b t (snd (once a ev h w)))"
  by (auto simp: once_def handleTauriEvent_def set_table_def set_listeners_def fun_upd_twist
      split: option.splits)

lemma unlisten_set_table:
  "a \<noteq> b \<Longrightarrow> call_unlisten (LocalUnlisten a ev h) (set_table b t w) =
     (fst (call_unlisten (LocalUnlisten a ev h) w),
      set_table b t (snd (call_unlisten (LocalUnlisten a ev h) w)))"
  by (auto simp: set_table_def set_listeners_def fun_upd_twist split: option.splits)

lemma set_table_restore: "set_table b (listeners (windows w b)) (set_table b t w) = w"
  by (simp add: set_table_def)

text \<open>
  The same for the dispatch loop, when the handlers themselves neither read nor write
  the table of the other object.
\<close>

lemma dispatch_set_table:
  assumes "dispatch beh a ev pl i called w = Some r"
    and "a \<noteq> b"
    and "\<And>h e t v. beh h e (set_table b t v) = (fst (beh h e v), set_table b t (snd (beh h e v)))"
  shows "dispatch beh a ev pl i called (set_table b t w) =
           Some (fst r, fst (snd r), set_table b t (snd (snd r)))"
  using assms
proof (induction beh a ev pl i called w r rule: dispatch.raw_induct [rotated 1, consumes 1, case_names step])
  case (step dispatch' beh a ev pl i called w r)
  let ?arr = "case listeners (windows w a) ev of None \<Rightarrow> [] | Some l \<Rightarrow> l"
  let ?e = "\<lparr>event = ev, id' = - 1, windowLabel = label (windows w a), payload = pl\<rparr>"
  from step(3) have same: "windows (set_table b t w) a = windows w a"
    by (simp add: set_table_def)
  show ?case
  proof (cases "i < length ?arr")
    case False
    with step(2) have "r = (Resolved, called, w)" by (simp add: Let_def)
    with False same show ?thesis by (simp add: dispatch_done)
  next
    case True
    obtain res v where b: "beh (?arr ! i) ?e w = (res, v)" by (cases "beh (?arr ! i) ?e w")
    with step(4) have b': "beh (?arr ! i) ?e (set_table b t w) = (res, set_table b t v)" by simp
    show ?thesis
    proof (cases res)
      case (Some thrown)
      with step(2) True b have "r = (Rejected thrown, called @ [(?arr ! i, ?e, Some thrown)], v)"
        by (simp add: Let_def)
      with True same b' Some show ?thesis
        by (subst dispatch.simps) (simp add: Let_def)
    next
      case None
      with step(2) True b have "dispatch' beh a ev pl (i + 1) (called @ [(?arr ! i, ?e, None)]) v = Some r"
        by (simp add: Let_def)
      from step(1) [OF this step(3) step(4)]
      have "dispatch beh a ev pl (i + 1) (called @ [(?arr ! i, ?e, None)]) (set_table b t v) =
              Some (fst r, fst (snd r), set_table b t (snd (snd r)))" .
      with True same b' None show ?thesis
        by (subst dispatch.simps) (simp add: Let_def)
    qed
  qed
qed

lemma emit_set_table_Some:
  assumes "emit beh a ev pl w = Some r"
    and "a \<noteq> b"
    and "\<And>h e t v. beh h e (set_table b t v) = (fst (beh h e v), set_table b t (snd (beh h e v)))"
  shows "emit beh a ev pl (set_table b t w) = Some (fst r, fst (snd r), set_table b t (snd (snd r)))"
proof -
  from assms(2) have same: "windows (set_table b t w) a = windows w a"
    by (simp add: set_table_def)
  show ?thesis
  proof (cases "ev \<in> set localTauriEvents")
    case False
    with assms(1) same show ?thesis
      by (auto simp: emit_def set_table_def)
  next
    case True
    show ?thesis
    proof (cases "listeners (windows w a) ev")
      case None
      with True assms(1) same show ?thesis by (auto simp: emit_def)
    next
      case (Some l)
      with True assms(1) have "dispatch beh a ev pl 0 [] w = Some r" by (simp add: emit_def)
      from dispatch_set_table [OF this assms(2) assms(3)] True Some same show ?thesis
        by (simp add: emit_def)
    qed
  qed
qed

lemma emit_set_table:
  assumes "a \<noteq> b"
    and "\<And>h e t v. beh h e (set_table b t v) = (fst (beh h e v), set_table b t (snd (beh h e v)))"
  shows "emit beh a ev pl (set_table b t w) =
           map_option (\<lambda>r. (fst r, fst (snd r), set_table b t (snd (snd r)))) (emit beh a ev pl w)"
proof (cases "emit beh a ev pl w")
  case (Some r)
  from emit_set_table_Some [OF Some assms] Some show ?thesis by simp
next
  case None
  have "emit beh a ev pl (set_table b t w) = None"
  proof (rule ccontr)
    assume "emit beh a ev pl (set_table b t w) \<noteq> None"
    then obtain r where "emit beh a ev pl (set_table b t w) = Some r" by auto
    from emit_set_table_Some [OF this assms, of "listeners (windows w b)"] None
    show False by (simp add: set_table_restore)
  qed
  with None show ?thesis by simp
qed

text \<open>The constructor makes a new object and changes no other.\<close>

lemma Window_new_fresh:
  "Window_new lbl opts w = (b, w') \<Longrightarrow>
     b = next_ref w \<and> windows w' b = \<lparr>label = lbl, listeners = Map.empty\<rparr> \<and>
     (\<forall>a. a \<noteq> b \<longrightarrow> windows w' a = windows w a)"
  by (auto simp: Window_new_def Let_def TAURI_INVOKE_def split: if_splits)

text \<open>
  C9. Let \<open>a\<close> be a \<open>Window\<close> object with label \<open>lbl\<close>, and \<open>b\<close> the object a later
  construction with the same label makes. Then \<open>a\<close> and \<open>b\<close> are different objects with
  the same label, \<open>b\<close> starts with an empty table of its own and the construction leaves
  \<open>a\<close> as it was. In every later world \<open>v\<close>, and for every content \<open>t\<close> of the other
  object's table: \<open>listen\<close>, \<open>once\<close> and the unlisten function on one of the two give
  the same result and the same world whatever the table of the other holds, and leave
  that table as it is; so does \<open>emit\<close>, provided the handlers themselves do not reach
  for the table of the other object.
\<close>

theorem C9_instances_do_not_share_listeners:
  assumes "a < next_ref w" and "label (windows w a) = lbl"
    and "Window_new lbl opts w = (b, w')"
  shows "a \<noteq> b \<and> label (windows w' a) = label (windows w' b) \<and>
    windows w' a = windows w a \<and> listeners (windows w' b) = Map.empty \<and>
    listen a ev h (set_table b t v) =
      (fst (listen a ev h v), set_table b t (snd (listen a ev h v))) \<and>
    listen b ev h (set_table a t v) =
      (fst (listen b ev h v), set_table a t (snd (listen b ev h v))) \<and>
    once a ev h (set_table b t v) =
      (fst (once a ev h v), set_table b t (snd (once a ev h v))) \<and>
    once b ev h (set_table a t v) =
      (fst (once b ev h v), set_table a t (snd (once b ev h v))) \<and>
    call_unlisten (LocalUnlisten a ev h) (set_table b t v) =
      (fst (call_unlisten (LocalUnlisten a ev h) v),
       set_table b t (snd (call_unlisten (LocalUnlisten a ev h) v))) \<and>
    call_unlisten (LocalUnlisten b ev h) (set_table a t v) =
      (fst (call_unlisten (LocalUnlisten b ev h) v),
       set_table a t (snd (call_unlisten (LocalUnlisten b ev h) v))) \<and>
    ((\<forall>g e t' v'. beh g e (set_table b t' v') =
                    (fst (beh g e v'), set_table b t' (snd (beh g e v')))) \<longrightarrow>
       emit beh a ev pl (set_table b t v) =
         map_option (\<lambda>r. (fst r, fst (snd r), set_table b t (snd (snd r)))) (emit beh a ev pl v)) \<and>
    ((\<forall>g e t' v'. beh g e (set_table a t' v') =
                    (fst (beh g e v'), set_table a t' (snd (beh g e v')))) \<longrightarrow>
       emit beh b ev pl (set_table a t v) =
         map_option (\<lambda>r. (fst r, fst (snd r), set_table a t (snd (snd r)))) (emit beh b ev pl v))"
proof -
  from Window_new_fresh [OF assms(3)] assms(1)
  have ab: "a \<noteq> b" and ba: "b \<noteq> a" and same: "windows w' a = windows w a"
    and new: "windows w' b = \<lparr>label = lbl, listeners = Map.empty\<rparr>"
    by auto
  from same new assms(2) have lbls: "label (windows w' a) = label (windows w' b)" by simp
  from new have empty: "listeners (windows w' b) = Map.empty" by simp
  have ea: "(\<forall>g e t' v'. beh g e (set_table b t' v') =
                    (fst (beh g e v'), set_table b t' (snd (beh g e v')))) \<longrightarrow>
       emit beh a ev pl (set_table b t v) =
         map_option (\<lambda>r. (fst r, fst (snd r), set_table b t (snd (snd r)))) (emit beh a ev pl v)"
    using emit_set_table [OF ab] by blast
  have eb: "(\<forall>g e t' v'. beh g e (set_table a t' v') =
                    (fst (beh g e v'), set_table a t' (snd (beh g e v')))) \<longrightarrow>
       emit beh b ev pl (set_table a t v) =
         map_option (\<lambda>r. (fst r, fst (snd r), set_table a t (snd (snd r)))) (emit beh b ev pl v)"
    using emit_set_table [OF ba] by blast
  from ab lbls same empty
    listen_set_table [OF ab] listen_set_table [OF ba]
    once_set_table [OF ab] once_set_table [OF ba]
    unlisten_set_table [OF ab] unlisten_set_table [OF ba] ea eb
  show ?thesis by (intro conjI)
qed

text \<open>
  C9, at two handles to the window \<open>w1\<close>: registering handler 5 on the first leaves
  the table of the second as it is, and an emit on the first calls handler 5 only,
  whatever the second has registered.
\<close>

theorem C9_witness:
  "(0::nat) < next_ref world_skip \<and> label (windows world_skip 0) = ''w1'' \<and>
   Window_new ''w1'' [(''skip'', Bool True)] world_skip = (1, world_pair) \<and>
   (0::nat) \<noteq> 1 \<and> label (windows world_pair 0) = label (windows world_pair 1) \<and>
   listeners (windows (snd (listen 0 ''tauri://created'' 5
       (set_table 1 [''tauri://created'' \<mapsto> [9]] world_pair))) 1) = [''tauri://created'' \<mapsto> [9]] \<and>
   (\<forall>g e t' v'. beh_quiet g e (set_table 1 t' v') =
       (fst (beh_quiet g e v'), set_table 1 t' (snd (beh_quiet g e v')))) \<and>
   emit beh_quiet 0 ''tauri://created'' Undefined
       (set_table 1 [''tauri://created'' \<mapsto> [9]] (snd (listen 0 ''tauri://created'' 5 world_pair))) =
     Some (Resolved,
           [(5, \<lparr>event = ''tauri://created'', id' = - 1, windowLabel = ''w1'', payload = Undefined\<rparr>, None)],
           set_table 1 [''tauri://created'' \<mapsto> [9]] (snd (listen 0 ''tauri://created'' 5 world_pair)))"
proof -
  have 1: "(0::nat) < next_ref world_skip" and 2: "label (windows world_skip 0) = ''w1''"
    and 3: "Window_new ''w1'' [(''skip'', Bool True)] world_skip = (1, world_pair)"
    by (simp_all add: example_defs)
  have q: "\<forall>g e t' v'. beh_quiet g e (set_table 1 t' v') =
       (fst (beh_quiet g e v'), set_table 1 t' (snd (beh_quiet g e v')))"
    by (simp add: beh_quiet_def)
  have e: "emit beh_quiet 0 ''tauri://created'' Undefined (snd (listen 0 ''tauri://created'' 5 world_pair)) =
     Some (Resolved,
           [(5, \<lparr>event = ''tauri://created'', id' = - 1, windowLabel = ''w1'', payload = Undefined\<rparr>, None)],
           snd (listen 0 ''tauri://created'' 5 world_pair))"
    by (simp add: emit_def dispatch.simps beh_quiet_def example_defs)
  note c9 = C9_instances_do_not_share_listeners [OF 1 2 3,
      of "''tauri://created''" 5 "[''tauri://created'' \<mapsto> [9]]" _ beh_quiet Undefined]
  have a: "(0::nat) \<noteq> 1"
    by (rule c9 [of world_pair, THEN conjunct1])
  have b: "label (windows world_pair 0) = label (windows world_pair 1)"
    by (rule c9 [of world_pair, THEN conjunct2, THEN conjunct1])
  have c: "listen 0 ''tauri://created'' 5 (set_table 1 [''tauri://created'' \<mapsto> [9]] world_pair) =
      (fst (listen 0 ''tauri://created'' 5 world_pair),
       set_table 1 [''tauri://created'' \<mapsto> [9]] (snd (listen 0 ''tauri://created'' 5 world_pair)))"
    by (rule c9 [of world_pair, THEN conjunct2, THEN conjunct2, THEN conjunct2, THEN conjunct2, THEN conjunct1])
  from c have c': "listeners (windows (snd (listen 0 ''tauri://created'' 5
       (set_table 1 [''tauri://created'' \<mapsto> [9]] world_pair))) 1) = [''tauri://created'' \<mapsto> [9]]"
    by (simp add: set_table_def)
  have imp: "(\<forall>g e t' v'. beh_quiet g e (set_table 1 t' v') =
                    (fst (beh_quiet g e v'), set_table 1 t' (snd (beh_quiet g e v')))) \<longrightarrow>
       emit beh_quiet 0 ''tauri://created'' Undefined
         (set_table 1 [''tauri://created'' \<mapsto> [9]] (snd (listen 0 ''tauri://created'' 5 world_pair))) =
         map_option (\<lambda>r. (fst r, fst (snd r),
             set_table 1 [''tauri://created'' \<mapsto> [9]] (snd (snd r))))
           (emit beh_quiet 0 ''tauri://created'' Undefined (snd (listen 0 ''tauri://created'' 5 world_pair)))"
    by (rule c9 [of "snd (listen 0 ''tauri://created'' 5 world_pair)", THEN conjunct2, THEN conjunct2, THEN conjunct2, THEN conjunct2, THEN conjunct2, THEN conjunct2, THEN conjunct2, THEN conjunct2, THEN conjunct2, THEN conjunct2, THEN conjunct1])
  from imp q e
  have d: "emit beh_quiet 0 ''tauri://created'' Undefined
       (set_table 1 [''tauri://created'' \<mapsto> [9]] (snd (listen 0 ''tauri://created'' 5 world_pair))) =
     Some (Resolved,
           [(5, \<lparr>event = ''tauri://created'', id' = - 1, windowLabel = ''w1'', payload = Undefined\<rparr>, None)],
           set_table 1 [''tauri://created'' \<mapsto> [9]] (snd (listen 0 ''tauri://created'' 5 world_pair)))"
    by simp
  from 1 2 3 a b c' q d show ?thesis by (intro conjI)
qed

end
